theory Spec2Isabelle
  imports Complex_Main "HOL-Library.Word" "HOL-Library.Product_Lexorder"
    "HOL-Library.List_Lexorder" "HOL-Library.Sublist"
begin

section \<open>The CCVI codec of CCVI.Converter.py\<close>

text \<open>
  The converter has two pure cores: \<open>convert_to_ccvi\<close> builds a document (a dictionary of
  width, height, planes and margin) from an RGBA array, and \<open>convert_from_ccvi\<close> replays
  a loaded document onto a zeroed canvas and picks the output format. Opening the image,
  writing the JSON text and saving the picture are input and output around them.

  Python floats are modelled as \<open>real\<close>: every quotient and product below is the exact one.
  \<open>uint8\<close> channels are \<open>8 word\<close>; Python integers are \<open>int\<close>.
\<close>

subsection \<open>Rasters\<close>

type_synonym byte = "8 word"
type_synonym rgb = "byte \<times> byte \<times> byte"
type_synonym pixel = "byte \<times> byte \<times> byte \<times> byte"

text \<open>
  \<open>img\<close> after \<open>convert("RGBA")\<close> together with \<open>arr = np.array(img)\<close>: the array has
  \<open>img.height\<close> rows of \<open>img.width\<close> pixels of four bytes.
\<close>

record image =
  img_width :: nat
  img_height :: nat
  arr :: "pixel list list"


text \<open>\<open>p[:3]\<close> and \<open>p[3]\<close> of a four-channel entry.\<close>

fun rgb_of :: "pixel \<Rightarrow> rgb" where
  "rgb_of (r, g, b, a) = (r, g, b)"

fun alpha_of :: "pixel \<Rightarrow> byte" where
  "alpha_of (r, g, b, a) = a"

text \<open>\<open>color[:3].tolist()\<close>: the three channels as Python integers.\<close>

fun tolist :: "rgb \<Rightarrow> int list" where
  "tolist (r, g, b) = [uint r, uint g, uint b]"

subsection \<open>Encoding\<close>

text \<open>
  \<open>np.unique(arr.reshape(-1, arr.shape[2]), axis=0)\<close>: the distinct four-byte rows of the
  flattened array, in ascending lexicographic order (the order of \<open>pixel\<close> as a product of
  unsigned bytes).
\<close>

definition unique_rows :: "pixel list list \<Rightarrow> pixel list" where
  "unique_rows a = sort (remdups (concat a))"

text \<open>
  \<open>np.argwhere(np.all(arr[:, :, :3] == color[:3], axis=2))\<close>: the \<open>(y, x)\<close> of the pixels
  whose first three channels equal the colour, rows first.
\<close>

definition mask_indices :: "pixel list list \<Rightarrow> rgb \<Rightarrow> (nat \<times> nat) list" where
  "mask_indices a c =
     concat (map (\<lambda>(y, row). map (\<lambda>(x, p). (y, x))
                                (filter (\<lambda>(x, p). rgb_of p = c) (enumerate 0 row)))
                 (enumerate 0 a))"

text \<open>Python's \<open>int(f)\<close> of a float: truncation towards zero.\<close>

definition py_int :: "real \<Rightarrow> int" where
  "py_int f = (if 0 \<le> f then \<lfloor>f\<rfloor> else \<lceil>f\<rceil>)"

text \<open>\<open>max(1, int(len(mask_indices) * (1 - margin_error)))\<close>\<close>

definition num_vectors :: "nat \<Rightarrow> real \<Rightarrow> int" where
  "num_vectors count margin_error = max 1 (py_int (real count * (1 - margin_error)))"

text \<open>\<open>max(1, len(mask_indices)//num_vectors)\<close>, the step of the slice.\<close>

definition stride :: "nat \<Rightarrow> real \<Rightarrow> nat" where
  "stride count margin_error = nat (max 1 (int count div num_vectors count margin_error))"

text \<open>
  The slice \<open>xs[::k]\<close> for a step \<open>k \<ge> 1\<close>: the entries at 0, k, 2k, ... (the step
  is never 0 here, where Python would raise).
\<close>

fun every_kth :: "nat \<Rightarrow> 'a list \<Rightarrow> 'a list" where
  "every_kth k [] = []"
| "every_kth k (x # xs) = x # every_kth k (drop (k - 1) xs)"

record vector =
  v_x :: int
  v_y :: int
  v_height :: real
  v_saturation :: real
  v_alpha :: real

record plane =
  p_color :: "int list"
  p_vectors :: "vector list"

record document =
  d_width :: int
  d_height :: int
  d_planes :: "plane list"
  d_margin_error :: real

text \<open>
  The body of the inner loop: mean of the three colour channels over 255, spread of the
  channels over 255 (the difference is a \<open>uint8\<close> difference), alpha over 255.
\<close>

definition sample_vector :: "pixel list list \<Rightarrow> nat \<times> nat \<Rightarrow> vector" where
  "sample_vector a yx =
     (case yx of (y, x) \<Rightarrow>
        (case a ! y ! x of (r, g, b, al) \<Rightarrow>
           \<lparr> v_x = int x, v_y = int y,
             v_height = ((real (unat r) + real (unat g) + real (unat b)) / 3) / 255,
             v_saturation = real (unat (max r (max g b) - min r (min g b))) / 255,
             v_alpha = real (unat al) / 255 \<rparr>))"

definition sampled_indices :: "pixel list list \<Rightarrow> real \<Rightarrow> rgb \<Rightarrow> (nat \<times> nat) list" where
  "sampled_indices a margin_error c =
     every_kth (stride (length (mask_indices a c)) margin_error) (mask_indices a c)"

definition make_plane :: "pixel list list \<Rightarrow> real \<Rightarrow> pixel \<Rightarrow> plane" where
  "make_plane a margin_error color =
     \<lparr> p_color = tolist (rgb_of color),
       p_vectors = map (sample_vector a) (sampled_indices a margin_error (rgb_of color)) \<rparr>"

text \<open>The loop over \<open>colors\<close>, with its \<open>continue\<close> on an empty mask.\<close>

fun planes_of :: "pixel list list \<Rightarrow> real \<Rightarrow> pixel list \<Rightarrow> plane list" where
  "planes_of a margin_error [] = []"
| "planes_of a margin_error (color # colors) =
     (if mask_indices a (rgb_of color) = [] then planes_of a margin_error colors
      else make_plane a margin_error color # planes_of a margin_error colors)"

definition convert_to_ccvi :: "image \<Rightarrow> real \<Rightarrow> document" where
  "convert_to_ccvi img margin_error =
     \<lparr> d_width = int (img_width img), d_height = int (img_height img),
       d_planes = planes_of (arr img) margin_error (unique_rows (arr img)),
       d_margin_error = margin_error \<rparr>"

subsection \<open>The loaded document\<close>

text \<open>
  \<open>json.load\<close> gives dictionaries in which any key may be missing and a number is an
  \<open>int\<close> or a \<open>float\<close>. The colour is a list of integers of any length. Values of other
  JSON kinds in these places are outside this type.
\<close>

datatype jnum = JInt int | JFloat real

record jvector =
  jv_x :: "jnum option"
  jv_y :: "jnum option"
  jv_height :: "jnum option"
  jv_saturation :: "jnum option"
  jv_alpha :: "jnum option"

record jplane =
  jp_color :: "int list option"
  jp_vectors :: "jvector list option"

record jdocument =
  jd_width :: "jnum option"
  jd_height :: "jnum option"
  jd_planes :: "jplane list option"
  jd_margin_error :: "jnum option"




subsection \<open>Decoding\<close>

datatype error = KeyError string | TypeError | ValueError | IndexError | OverflowError

type_synonym canvas = "pixel list list"

text \<open>
  \<open>np.zeros((height, width, 4), dtype=np.uint8)\<close>: a float in the shape is a TypeError,
  a negative size a ValueError.
\<close>

definition np_zeros :: "jnum \<Rightarrow> jnum \<Rightarrow> error + canvas" where
  "np_zeros height width =
     (case height of
        JFloat _ \<Rightarrow> Inl TypeError
      | JInt h \<Rightarrow>
          (case width of
             JFloat _ \<Rightarrow> Inl TypeError
           | JInt w \<Rightarrow>
               if h < 0 \<or> w < 0 then Inl ValueError
               else Inr (replicate (nat h) (replicate (nat w) (0, 0, 0, 0)))))"

text \<open>
  An index into an axis of size \<open>n\<close>: a float is refused, an integer from \<open>-n\<close> to
  \<open>n - 1\<close> is accepted and a negative one counts from the end, anything else is out of
  bounds.
\<close>

definition np_index :: "nat \<Rightarrow> jnum \<Rightarrow> error + nat" where
  "np_index n i =
     (case i of
        JFloat _ \<Rightarrow> Inl IndexError
      | JInt k \<Rightarrow>
          if - int n \<le> k \<and> k < int n then Inr (nat (if k < 0 then k + int n else k))
          else Inl IndexError)"

text \<open>
  Storing a Python integer into a \<open>uint8\<close> cell: a value outside 0..255 is an
  OverflowError (NumPy 2; older versions wrap it).
\<close>

definition to_uint8 :: "int \<Rightarrow> error + byte" where
  "to_uint8 v = (if 0 \<le> v \<and> v \<le> 255 then Inr (word_of_int v) else Inl OverflowError)"

text \<open>
  The right-hand side of \<open>canvas[y, x, :3] = color\<close>: the list is converted to bytes and
  broadcast to three channels, so three entries or one entry fit.
\<close>

fun to_uint8s :: "int list \<Rightarrow> error + byte list" where
  "to_uint8s [] = Inr []"
| "to_uint8s (v # vs) =
     (case to_uint8 v of
        Inl e \<Rightarrow> Inl e
      | Inr b \<Rightarrow> (case to_uint8s vs of Inl e \<Rightarrow> Inl e | Inr bs \<Rightarrow> Inr (b # bs)))"

definition broadcast3 :: "int list \<Rightarrow> error + rgb" where
  "broadcast3 color =
     (case to_uint8s color of
        Inl e \<Rightarrow> Inl e
      | Inr [r, g, b] \<Rightarrow> Inr (r, g, b)
      | Inr [v] \<Rightarrow> Inr (v, v, v)
      | Inr _ \<Rightarrow> Inl ValueError)"

text \<open>\<open>int(vec["alpha"] * 255)\<close>\<close>

fun alpha_value :: "jnum \<Rightarrow> int" where
  "alpha_value (JInt k) = k * 255"
| "alpha_value (JFloat f) = py_int (f * 255)"

text \<open>The body of the loop over the vectors of a plane.\<close>

definition write_vector :: "canvas \<Rightarrow> int list \<Rightarrow> jvector \<Rightarrow> error + canvas" where
  "write_vector canvas color vec =
     (case jv_x vec of None \<Rightarrow> Inl (KeyError ''x'') | Some x \<Rightarrow>
     (case jv_y vec of None \<Rightarrow> Inl (KeyError ''y'') | Some y \<Rightarrow>
     (case np_index (length canvas) y of Inl e \<Rightarrow> Inl e | Inr i \<Rightarrow>
     (case np_index (length (canvas ! i)) x of Inl e \<Rightarrow> Inl e | Inr j \<Rightarrow>
     (case broadcast3 color of Inl e \<Rightarrow> Inl e | Inr c \<Rightarrow>
     (case jv_alpha vec of None \<Rightarrow> Inl (KeyError ''alpha'') | Some al \<Rightarrow>
     (case to_uint8 (alpha_value al) of Inl e \<Rightarrow> Inl e | Inr a \<Rightarrow>
        Inr (canvas[i := (canvas ! i)[j := (fst c, fst (snd c), snd (snd c), a)]]))))))))"

fun write_vectors :: "canvas \<Rightarrow> int list \<Rightarrow> jvector list \<Rightarrow> error + canvas" where
  "write_vectors canvas color [] = Inr canvas"
| "write_vectors canvas color (vec # vecs) =
     (case write_vector canvas color vec of
        Inl e \<Rightarrow> Inl e
      | Inr canvas' \<Rightarrow> write_vectors canvas' color vecs)"

text \<open>The body of the loop over the planes.\<close>

definition write_plane :: "canvas \<Rightarrow> jplane \<Rightarrow> error + canvas" where
  "write_plane canvas plane =
     (case jp_color plane of None \<Rightarrow> Inl (KeyError ''color'') | Some color \<Rightarrow>
     (case jp_vectors plane of None \<Rightarrow> Inl (KeyError ''vectors'') | Some vecs \<Rightarrow>
        write_vectors canvas color vecs))"

fun write_planes :: "canvas \<Rightarrow> jplane list \<Rightarrow> error + canvas" where
  "write_planes canvas [] = Inr canvas"
| "write_planes canvas (plane # planes) =
     (case write_plane canvas plane of
        Inl e \<Rightarrow> Inl e
      | Inr canvas' \<Rightarrow> write_planes canvas' planes)"

text \<open>The canvas after the two loops.\<close>

definition replay :: "jdocument \<Rightarrow> error + canvas" where
  "replay data =
     (case jd_width data of None \<Rightarrow> Inl (KeyError ''width'') | Some width \<Rightarrow>
     (case jd_height data of None \<Rightarrow> Inl (KeyError ''height'') | Some height \<Rightarrow>
     (case np_zeros height width of Inl e \<Rightarrow> Inl e | Inr canvas \<Rightarrow>
     (case jd_planes data of None \<Rightarrow> Inl (KeyError ''planes'') | Some planes \<Rightarrow>
        write_planes canvas planes))))"

text \<open>
  The picture handed to \<open>img.save\<close>: the canvas as it is, or converted to RGB, which
  drops the fourth channel.
\<close>

datatype picture = RGBA canvas | RGB "rgb list list"

text \<open>\<open>np.any(canvas[:, :, 3] < 255)\<close>\<close>

definition any_alpha_below_255 :: "canvas \<Rightarrow> bool" where
  "any_alpha_below_255 canvas = list_ex (list_ex (\<lambda>p. alpha_of p < 255)) canvas"

definition convert_from_ccvi :: "jdocument \<Rightarrow> error + string \<times> picture" where
  "convert_from_ccvi data =
     (case replay data of
        Inl e \<Rightarrow> Inl e
      | Inr canvas \<Rightarrow>
          if any_alpha_below_255 canvas then Inr (''png'', RGBA canvas)
          else Inr (''jpeg'', RGB (map (map rgb_of) canvas)))"

subsection \<open>Notions the properties are stated with\<close>

text \<open>
  The mask population of a colour (given as the plane stores it, a list of integers): the
  number of pixels of the raster with that colour.
\<close>

definition population :: "pixel list list \<Rightarrow> int list \<Rightarrow> nat" where
  "population a col = length (filter (\<lambda>p. tolist (rgb_of p) = col) (concat a))"

text \<open>The full mask-coordinate list of a colour: every \<open>(y, x)\<close> of that colour, rows first.\<close>

definition color_mask :: "pixel list list \<Rightarrow> int list \<Rightarrow> (int \<times> int) list" where
  "color_mask a col =
     concat (map (\<lambda>(y, row). map (\<lambda>(x, p). (int y, int x))
                                (filter (\<lambda>(x, p). tolist (rgb_of p) = col) (enumerate 0 row)))
                 (enumerate 0 a))"

text \<open>The \<open>(y, x)\<close> of the vectors of a plane, in the order the plane lists them.\<close>

definition coordinates :: "plane \<Rightarrow> (int \<times> int) list" where
  "coordinates p = map (\<lambda>v. (v_y v, v_x v)) (p_vectors p)"


text \<open>
  The colours of a raster in the order of their first occurrence in the row-major scan,
  as the specification words the plane order.
\<close>

definition first_occurrence_colors :: "pixel list list \<Rightarrow> int list list" where
  "first_occurrence_colors a = rev (remdups (rev (map (\<lambda>p. tolist (rgb_of p)) (concat a))))"

text \<open>The mask of one row from column \<open>n\<close> on, and of the rows from row \<open>n\<close> on.\<close>

definition row_indices :: "nat \<Rightarrow> rgb \<Rightarrow> nat \<Rightarrow> pixel list \<Rightarrow> (nat \<times> nat) list" where
  "row_indices y c n row =
     map (\<lambda>(x, p). (y, x)) (filter (\<lambda>(x, p). rgb_of p = c) (enumerate n row))"

definition rows_indices :: "rgb \<Rightarrow> nat \<Rightarrow> pixel list list \<Rightarrow> (nat \<times> nat) list" where
  "rows_indices c n a = concat (map (\<lambda>(y, row). row_indices y c 0 row) (enumerate n a))"

subsection \<open>Example rasters\<close>


text \<open>A red pixel followed by a blue one.\<close>

definition example_red_blue :: image where
  "example_red_blue = \<lparr> img_width = 2, img_height = 1,
     arr = [[(255, 0, 0, 255), (0, 0, 255, 255)]] \<rparr>"

text \<open>Two pixels of the same colour, one opaque and one transparent.\<close>

definition example_alpha :: image where
  "example_alpha = \<lparr> img_width = 2, img_height = 1,
     arr = [[(1, 2, 3, 255), (1, 2, 3, 0)]] \<rparr>"

text \<open>Two rows of a red pixel and a half-transparent blue one.\<close>

definition example_2x2 :: image where
  "example_2x2 = \<lparr> img_width = 2, img_height = 2,
     arr = [[(255, 0, 0, 255), (0, 0, 255, 128)], [(255, 0, 0, 255), (0, 0, 255, 128)]] \<rparr>"

subsection \<open>Notions for the decoder\<close>

text \<open>A canvas of \<open>h\<close> rows of \<open>w\<close> pixels.\<close>

definition has_shape :: "nat \<Rightarrow> nat \<Rightarrow> canvas \<Rightarrow> bool" where
  "has_shape h w canvas \<longleftrightarrow> length canvas = h \<and> list_all (\<lambda>row. length row = w) canvas"



text \<open>
  A document the decoder cannot read: a field it reads is absent, a size or a coordinate is
  absent or not an integer, or the colour of a plane with a vector has neither three
  entries nor one.
\<close>

definition not_int :: "jnum option \<Rightarrow> bool" where
  "not_int v = (case v of Some (JInt _) \<Rightarrow> False | _ \<Rightarrow> True)"

definition unreadable_vector :: "jvector \<Rightarrow> bool" where
  "unreadable_vector v \<longleftrightarrow> not_int (jv_x v) \<or> not_int (jv_y v) \<or> jv_alpha v = None"

definition unreadable_plane :: "jplane \<Rightarrow> bool" where
  "unreadable_plane p =
     (case jp_color p of None \<Rightarrow> True | Some color \<Rightarrow>
     (case jp_vectors p of None \<Rightarrow> True | Some vecs \<Rightarrow>
        list_ex unreadable_vector vecs
        \<or> (vecs \<noteq> [] \<and> length color \<noteq> 1 \<and> length color \<noteq> 3)))"

definition unreadable_document :: "jdocument \<Rightarrow> bool" where
  "unreadable_document d \<longleftrightarrow>
     not_int (jd_width d) \<or> not_int (jd_height d) \<or>
     (case jd_planes d of None \<Rightarrow> True | Some planes \<Rightarrow> list_ex unreadable_plane planes)"

text \<open>A document with its margin and the height and saturation of every vector removed.\<close>

definition forget_vector :: "jvector \<Rightarrow> jvector" where
  "forget_vector v = v\<lparr> jv_height := None, jv_saturation := None \<rparr>"

definition forget_plane :: "jplane \<Rightarrow> jplane" where
  "forget_plane p = p\<lparr> jp_vectors := map_option (map forget_vector) (jp_vectors p) \<rparr>"

definition forget_document :: "jdocument \<Rightarrow> jdocument" where
  "forget_document d =
     d\<lparr> jd_margin_error := None, jd_planes := map_option (map forget_plane) (jd_planes d) \<rparr>"

subsection \<open>Example documents\<close>

text \<open>A vector of colour (1, 2, 3) with every field present.\<close>

definition example_vector :: "int \<Rightarrow> int \<Rightarrow> real \<Rightarrow> jvector" where
  "example_vector x y alpha =
     \<lparr> jv_x = Some (JInt x), jv_y = Some (JInt y), jv_height = Some (JFloat (2/255)),
       jv_saturation = Some (JFloat (2/255)), jv_alpha = Some (JFloat alpha) \<rparr>"

text \<open>A canvas of one row and two columns with one opaque vector in column \<open>x\<close>.\<close>

definition example_doc :: "int \<Rightarrow> jdocument" where
  "example_doc x =
     \<lparr> jd_width = Some (JInt 2), jd_height = Some (JInt 1),
       jd_planes = Some [\<lparr> jp_color = Some [1, 2, 3],
                            jp_vectors = Some [example_vector x 0 1] \<rparr>],
       jd_margin_error = Some (JFloat 0) \<rparr>"

text \<open>One opaque pixel, written without margin, height and saturation.\<close>

definition example_doc_sparse :: jdocument where
  "example_doc_sparse =
     \<lparr> jd_width = Some (JInt 1), jd_height = Some (JInt 1),
       jd_planes = Some [\<lparr> jp_color = Some [1, 2, 3],
                            jp_vectors = Some [\<lparr> jv_x = Some (JInt 0), jv_y = Some (JInt 0),
                               jv_height = None, jv_saturation = None,
                               jv_alpha = Some (JFloat 1) \<rparr>] \<rparr>],
       jd_margin_error = None \<rparr>"

text \<open>One opaque pixel whose colour has a single entry.\<close>

definition example_doc_gray :: jdocument where
  "example_doc_gray =
     \<lparr> jd_width = Some (JInt 1), jd_height = Some (JInt 1),
       jd_planes = Some [\<lparr> jp_color = Some [7],
                            jp_vectors = Some [example_vector 0 0 1] \<rparr>],
       jd_margin_error = Some (JFloat 0) \<rparr>"

text \<open>One pixel whose vector has no alpha.\<close>

definition example_doc_no_alpha :: jdocument where
  "example_doc_no_alpha =
     \<lparr> jd_width = Some (JInt 1), jd_height = Some (JInt 1),
       jd_planes = Some [\<lparr> jp_color = Some [1, 2, 3],
                            jp_vectors = Some [\<lparr> jv_x = Some (JInt 0), jv_y = Some (JInt 0),
                               jv_height = Some (JFloat (2/255)),
                               jv_saturation = Some (JFloat (2/255)),
                               jv_alpha = None \<rparr>] \<rparr>],
       jd_margin_error = Some (JFloat 0) \<rparr>"

section \<open>Properties of the encoder\<close>

subsection \<open>The slice with a step\<close>



lemma every_kth_one: "every_kth (Suc 0) xs = xs"
  by (induction xs) auto

lemma every_kth_all: "length xs \<le> k \<Longrightarrow> every_kth k xs = take 1 xs"
  by (cases xs) auto

lemma subseq_drop: "subseq (drop n xs) xs"
proof -
  have "subseq (drop n xs) (take n xs @ drop n xs)"
    by (rule subseq_drop_many) simp
  then show ?thesis by simp
qed

lemma subseq_every_kth: "subseq (every_kth k xs) xs"
proof (induction k xs rule: every_kth.induct)
  case (1 k)
  then show ?case by simp
next
  case (2 k x xs)
  have "subseq (every_kth k (drop (k - 1) xs)) xs"
    using 2 subseq_drop [of "k - 1" xs] by (rule subseq_order.trans)
  then show ?case by simp
qed

lemma every_kth_hd: "xs \<noteq> [] \<Longrightarrow> every_kth k xs \<noteq> [] \<and> hd (every_kth k xs) = hd xs"
  by (cases xs) auto

subsection \<open>The mask of a colour\<close>

lemma row_indices_Nil: "row_indices y c n [] = []"
  by (simp add: row_indices_def)

lemma row_indices_Cons:
  "row_indices y c n (p # row) =
      (if rgb_of p = c then [(y, n)] else []) @ row_indices y c (Suc n) row"
  by (simp add: row_indices_def)

lemma rows_indices_Nil: "rows_indices c n [] = []"
  by (simp add: rows_indices_def)

lemma rows_indices_Cons:
  "rows_indices c n (row # a) = row_indices n c 0 row @ rows_indices c (Suc n) a"
  by (simp add: rows_indices_def)

lemma mask_indices_rows: "mask_indices a c = rows_indices c 0 a"
  by (simp add: mask_indices_def rows_indices_def row_indices_def)

lemma in_row_indices:
  "(y', x) \<in> set (row_indices y c n row) \<longleftrightarrow>
     y' = y \<and> n \<le> x \<and> x - n < length row \<and> rgb_of (row ! (x - n)) = c"
proof (induction row arbitrary: n)
  case Nil
  then show ?case by (simp add: row_indices_Nil)
next
  case (Cons p row)
  note IH = Cons [of "Suc n"]
  show ?case
  proof (cases "x = n")
    case True
    have "(y', x) \<notin> set (row_indices y c (Suc n) row)"
      unfolding IH using True by simp
    with True show ?thesis
      by (auto simp: row_indices_Cons)
  next
    case False
    have "n \<le> x \<Longrightarrow> x - n = Suc (x - Suc n)" using False by simp
    moreover have "(y', x) \<noteq> (y, n)" using False by simp
    ultimately show ?thesis
      unfolding row_indices_Cons using False IH by auto
  qed
qed

lemma in_rows_indices:
  "(y, x) \<in> set (rows_indices c n a) \<longleftrightarrow>
     n \<le> y \<and> y - n < length a \<and> x < length (a ! (y - n)) \<and> rgb_of (a ! (y - n) ! x) = c"
proof (induction a arbitrary: n)
  case Nil
  then show ?case by (simp add: rows_indices_Nil)
next
  case (Cons row a)
  note IH = Cons [of "Suc n"]
  show ?case
  proof (cases "y = n")
    case True
    have "(y, x) \<notin> set (rows_indices c (Suc n) a)"
      unfolding IH using True by simp
    with True show ?thesis
      by (auto simp: rows_indices_Cons in_row_indices)
  next
    case False
    have "n \<le> y \<Longrightarrow> y - n = Suc (y - Suc n)" using False by simp
    moreover have "(y, x) \<notin> set (row_indices n c 0 row)"
      using False by (simp add: in_row_indices)
    ultimately show ?thesis
      unfolding rows_indices_Cons using False IH by auto
  qed
qed


lemma sorted_row_indices: "sorted_wrt (<) (row_indices y c n row)"
proof (induction row arbitrary: n)
  case Nil
  then show ?case by (simp add: row_indices_Nil)
next
  case (Cons p row)
  have "\<forall>q \<in> set (row_indices y c (Suc n) row). (y, n) < q"
    by (auto simp: in_row_indices)
  with Cons [of "Suc n"] show ?case unfolding row_indices_Cons by simp
qed

lemma sorted_rows_indices: "sorted_wrt (<) (rows_indices c n a)"
proof (induction a arbitrary: n)
  case Nil
  then show ?case by (simp add: rows_indices_Nil)
next
  case (Cons row a)
  have "\<forall>p \<in> set (row_indices n c 0 row). \<forall>q \<in> set (rows_indices c (Suc n) a). p < q"
    by (auto simp: in_rows_indices in_row_indices)
  with Cons [of "Suc n"] sorted_row_indices [of n c 0 row] show ?case
    by (simp add: sorted_wrt_append rows_indices_Cons)
qed

lemma sorted_mask_indices: "sorted_wrt (<) (mask_indices a c)"
  by (simp add: mask_indices_rows sorted_rows_indices)

lemma length_row_indices:
  "length (row_indices y c n row) = length (filter (\<lambda>p. rgb_of p = c) row)"
  by (induction row arbitrary: n) (simp_all add: row_indices_Nil row_indices_Cons)

lemma length_rows_indices:
  "length (rows_indices c n a) = length (filter (\<lambda>p. rgb_of p = c) (concat a))"
  by (induction a arbitrary: n) (simp_all add: rows_indices_Nil rows_indices_Cons length_row_indices)

lemma length_mask_indices:
  "length (mask_indices a c) = length (filter (\<lambda>p. rgb_of p = c) (concat a))"
  by (simp add: mask_indices_rows length_rows_indices)

subsection \<open>Planes\<close>

lemma tolist_eq_iff: "tolist c = tolist c' \<longleftrightarrow> c = c'"
  by (cases c; cases c') (auto simp flip: word_uint_eq_iff)

lemma subseq_sorted_wrt: "subseq xs ys \<Longrightarrow> sorted_wrt P ys \<Longrightarrow> sorted_wrt P xs"
  by (induction rule: list_emb.induct) (auto dest: list_emb_set)

lemma population_tolist: "population a (tolist c) = length (mask_indices a c)"
  by (simp add: population_def length_mask_indices tolist_eq_iff)

lemma color_mask_tolist:
  "color_mask a (tolist c) = map (\<lambda>(y, x). (int y, int x)) (mask_indices a c)"
  by (simp add: color_mask_def mask_indices_def tolist_eq_iff map_concat comp_def case_prod_unfold)

lemma coordinates_make_plane:
  "coordinates (make_plane a m color) =
     map (\<lambda>(y, x). (int y, int x)) (sampled_indices a m (rgb_of color))"
  by (simp add: coordinates_def make_plane_def sample_vector_def comp_def case_prod_unfold)

lemma planes_of_filter:
  "planes_of a m colors =
     map (make_plane a m) (filter (\<lambda>color. mask_indices a (rgb_of color) \<noteq> []) colors)"
  by (induction colors) auto

lemma mask_nonempty: "color \<in> set (concat a) \<Longrightarrow> mask_indices a (rgb_of color) \<noteq> []"
proof -
  assume "color \<in> set (concat a)"
  then have "filter (\<lambda>p. rgb_of p = rgb_of color) (concat a) \<noteq> []"
    by (auto simp: filter_empty_conv)
  then have "length (mask_indices a (rgb_of color)) \<noteq> 0"
    unfolding length_mask_indices by simp
  then show ?thesis by auto
qed

lemma planes_of_unique_rows:
  "planes_of a m (unique_rows a) = map (make_plane a m) (unique_rows a)"
proof -
  have "filter (\<lambda>color. mask_indices a (rgb_of color) \<noteq> []) (unique_rows a) = unique_rows a"
    by (rule filter_True) (simp add: unique_rows_def mask_nonempty)
  then show ?thesis by (simp add: planes_of_filter)
qed

lemma plane_cases:
  assumes "p \<in> set (d_planes (convert_to_ccvi img m))"
  shows "\<exists>color. color \<in> set (concat (arr img)) \<and> p = make_plane (arr img) m color"
proof -
  from assms have "p \<in> make_plane (arr img) m ` set (unique_rows (arr img))"
    by (simp add: convert_to_ccvi_def planes_of_unique_rows)
  then obtain color where "color \<in> set (unique_rows (arr img))" "p = make_plane (arr img) m color"
    by blast
  moreover have "set (unique_rows (arr img)) = set (concat (arr img))"
    by (simp add: unique_rows_def)
  ultimately show ?thesis by blast
qed


lemma num_vectors_zero: "0 < n \<Longrightarrow> num_vectors n 0 = int n"
  by (simp add: num_vectors_def py_int_def)

lemma stride_zero: "0 < n \<Longrightarrow> stride n 0 = 1"
  by (simp add: stride_def num_vectors_zero)

lemma num_vectors_one: "num_vectors n 1 = 1"
  by (simp add: num_vectors_def py_int_def)

lemma stride_one: "0 < n \<Longrightarrow> stride n 1 = n"
  by (simp add: stride_def num_vectors_one)

lemma mono_int_pair: "sorted_wrt (<) xs \<Longrightarrow> sorted_wrt (<) (map (\<lambda>(y, x). (int y, int x)) xs)"
proof -
  assume "sorted_wrt (<) xs"
  then have "sorted_wrt (\<lambda>p q. (case p of (y, x) \<Rightarrow> (int y, int x))
                              < (case q of (y, x) \<Rightarrow> (int y, int x))) xs"
    by (rule sorted_wrt_mono_rel [rotated]) (auto simp: less_prod_def)
  then show ?thesis by (simp add: sorted_wrt_map)
qed

lemma tolist_mono: "p \<le> q \<Longrightarrow> tolist (rgb_of p) \<le> tolist (rgb_of q)"
  by (cases p; cases q) (auto simp: less_eq_prod_def word_less_def word_le_def)

lemmas encode_defs = convert_to_ccvi_def unique_rows_def make_plane_def sampled_indices_def
  mask_indices_def stride_def num_vectors_def py_int_def sample_vector_def

subsection \<open>The number of vectors of a plane\<close>




subsection \<open>The order of the planes\<close>

text \<open>
  Claim C2, as the code has it: the planes are not in the order of first occurrence. Their
  colours are the colours of the raster in non-decreasing lexicographic order of
  (R, G, B), the order in which the sorted distinct rows are walked.
\<close>

theorem planes_in_sorted_order:
  "sorted (map p_color (d_planes (convert_to_ccvi img m)))
   \<and> set (map p_color (d_planes (convert_to_ccvi img m)))
       = (\<lambda>q. tolist (rgb_of q)) ` set (concat (arr img))"
proof -
  have eq: "map p_color (d_planes (convert_to_ccvi img m)) =
      map (\<lambda>q. tolist (rgb_of q)) (sort (remdups (concat (arr img))))"
    by (simp add: convert_to_ccvi_def planes_of_unique_rows make_plane_def comp_def)
       (simp add: unique_rows_def)
  have "sorted (map (\<lambda>q. tolist (rgb_of q)) (sort (remdups (concat (arr img)))))"
    by (rule sorted_map_mono) (auto simp: mono_on_def tolist_mono)
  moreover have "set (map (\<lambda>q. tolist (rgb_of q)) (sort (remdups (concat (arr img)))))
       = (\<lambda>q. tolist (rgb_of q)) ` set (concat (arr img))"
    by simp
  ultimately show ?thesis unfolding eq by simp
qed

text \<open>Red before blue in the raster, blue before red in the document.\<close>

theorem planes_in_sorted_order_witness:
  "sorted (map p_color (d_planes (convert_to_ccvi example_red_blue 0)))
   \<and> map p_color (d_planes (convert_to_ccvi example_red_blue 0)) = [[0, 0, 255], [255, 0, 0]]"
proof -
  have "map p_color (d_planes (convert_to_ccvi example_red_blue 0)) = [[0, 0, 255], [255, 0, 0]]"
    by (simp add: example_red_blue_def encode_defs)
  with planes_in_sorted_order [of example_red_blue 0] show ?thesis by simp
qed

text \<open>Red is met first in the scan, yet the blue plane comes first.\<close>

theorem first_occurrence_order_counterexample:
  "map p_color (d_planes (convert_to_ccvi example_red_blue 0)) = [[0, 0, 255], [255, 0, 0]]
   \<and> first_occurrence_colors (arr example_red_blue) = [[255, 0, 0], [0, 0, 255]]"
  by (simp add: example_red_blue_def encode_defs first_occurrence_colors_def)

subsection \<open>Planes of the same colour\<close>

text \<open>
  Claim C3 at a raster with two pixels of equal colour and different alpha: the distinct
  rows are taken over all four channels, the mask and the plane colour over the first
  three, so the document has two planes of colour [1, 2, 3], with the same vectors.
\<close>

theorem duplicate_plane_colors:
  "map p_color (d_planes (convert_to_ccvi example_alpha 0)) = [[1, 2, 3], [1, 2, 3]]
   \<and> d_planes (convert_to_ccvi example_alpha 0) ! 0 = d_planes (convert_to_ccvi example_alpha 0) ! 1"
  by (simp add: example_alpha_def encode_defs)

subsection \<open>The two ends of the margin\<close>

text \<open>
  Claim C8: every plane of an encoded document has a non-empty mask. At margin 0 the
  number of vectors asked for is the population and the step is 1, and the plane keeps the
  whole mask list; at margin 1 it keeps one vector, the first entry of the mask list.
\<close>

theorem margin_edge_cases:
  "(p \<in> set (d_planes (convert_to_ccvi img 0)) \<longrightarrow>
      color_mask (arr img) (p_color p) \<noteq> []
      \<and> coordinates p = color_mask (arr img) (p_color p)
      \<and> num_vectors (population (arr img) (p_color p)) 0 = int (population (arr img) (p_color p))
      \<and> stride (population (arr img) (p_color p)) 0 = 1)
   \<and> (p \<in> set (d_planes (convert_to_ccvi img 1)) \<longrightarrow>
      color_mask (arr img) (p_color p) \<noteq> []
      \<and> length (p_vectors p) = 1
      \<and> coordinates p = [hd (color_mask (arr img) (p_color p))])"
proof (intro conjI impI)
  assume mem0: "p \<in> set (d_planes (convert_to_ccvi img 0))"
  from plane_cases [OF mem0] obtain color where mem: "color \<in> set (concat (arr img))"
    and p: "p = make_plane (arr img) 0 color"
    by blast
  let ?mask = "mask_indices (arr img) (rgb_of color)"
  let ?f = "\<lambda>(y, x). (int y, int x)"
  have col: "p_color p = tolist (rgb_of color)"
    by (simp add: p make_plane_def)
  have ne: "?mask \<noteq> []" using mem by (rule mask_nonempty)
  then have pos: "0 < length ?mask" by simp
  have cm: "color_mask (arr img) (p_color p) = map ?f ?mask"
    by (simp add: col color_mask_tolist)
  have pop: "population (arr img) (p_color p) = length ?mask"
    by (simp add: col population_tolist)
  have co: "coordinates p = map ?f (sampled_indices (arr img) 0 (rgb_of color))"
    by (simp add: p coordinates_make_plane)
  show "color_mask (arr img) (p_color p) \<noteq> []" using ne by (simp add: cm)
  show "coordinates p = color_mask (arr img) (p_color p)"
    unfolding co cm using pos by (simp add: sampled_indices_def stride_zero every_kth_one)
  show "num_vectors (population (arr img) (p_color p)) 0 = int (population (arr img) (p_color p))"
    unfolding pop using pos by (simp add: num_vectors_zero)
  show "stride (population (arr img) (p_color p)) 0 = 1"
    unfolding pop using pos by (simp add: stride_zero)
next
  assume mem1: "p \<in> set (d_planes (convert_to_ccvi img 1))"
  from plane_cases [OF mem1] obtain color where mem: "color \<in> set (concat (arr img))"
    and p: "p = make_plane (arr img) 1 color"
    by blast
  let ?mask = "mask_indices (arr img) (rgb_of color)"
  let ?f = "\<lambda>(y, x). (int y, int x)"
  have col: "p_color p = tolist (rgb_of color)"
    by (simp add: p make_plane_def)
  have ne: "?mask \<noteq> []" using mem by (rule mask_nonempty)
  then have pos: "0 < length ?mask" by simp
  have cm: "color_mask (arr img) (p_color p) = map ?f ?mask"
    by (simp add: col color_mask_tolist)
  have co: "coordinates p = map ?f (sampled_indices (arr img) 1 (rgb_of color))"
    by (simp add: p coordinates_make_plane)
  have "sampled_indices (arr img) 1 (rgb_of color) = [hd ?mask]"
    using ne pos by (cases ?mask) (simp_all add: sampled_indices_def stride_one every_kth_all)
  then show one: "coordinates p = [hd (color_mask (arr img) (p_color p))]"
    unfolding co cm using ne by (simp add: hd_map)
  have "length (p_vectors p) = length (coordinates p)"
    by (simp add: coordinates_def)
  with one show "length (p_vectors p) = 1" by simp
  show "color_mask (arr img) (p_color p) \<noteq> []" using ne by (simp add: cm)
qed

text \<open>The red plane of the 2 by 2 example: both red pixels at margin 0, the upper one at margin 1.\<close>

theorem margin_edge_cases_witness:
  "last (d_planes (convert_to_ccvi example_2x2 0)) \<in> set (d_planes (convert_to_ccvi example_2x2 0))
   \<and> coordinates (last (d_planes (convert_to_ccvi example_2x2 0))) = [(0, 0), (1, 0)]
   \<and> last (d_planes (convert_to_ccvi example_2x2 1)) \<in> set (d_planes (convert_to_ccvi example_2x2 1))
   \<and> coordinates (last (d_planes (convert_to_ccvi example_2x2 1))) = [(0, 0)]"
proof -
  have h0: "last (d_planes (convert_to_ccvi example_2x2 0))
              \<in> set (d_planes (convert_to_ccvi example_2x2 0))"
    by (simp add: example_2x2_def encode_defs)
  have h1: "last (d_planes (convert_to_ccvi example_2x2 1))
              \<in> set (d_planes (convert_to_ccvi example_2x2 1))"
    by (simp add: example_2x2_def encode_defs)
  have c0: "p_color (last (d_planes (convert_to_ccvi example_2x2 0))) = [255, 0, 0]"
    by (simp add: example_2x2_def encode_defs)
  have c1: "p_color (last (d_planes (convert_to_ccvi example_2x2 1))) = [255, 0, 0]"
    by (simp add: example_2x2_def encode_defs)
  have m: "color_mask (arr example_2x2) [255, 0, 0] = [(0, 0), (1, 0)]"
    by (simp add: example_2x2_def color_mask_def)
  from margin_edge_cases [of "last (d_planes (convert_to_ccvi example_2x2 0))" example_2x2] h0
  have "coordinates (last (d_planes (convert_to_ccvi example_2x2 0))) = [(0, 0), (1, 0)]"
    by (simp add: c0 m)
  moreover
  from margin_edge_cases [of "last (d_planes (convert_to_ccvi example_2x2 1))" example_2x2] h1
  have "coordinates (last (d_planes (convert_to_ccvi example_2x2 1))) = [(0, 0)]"
    by (simp add: c1 m)
  ultimately show ?thesis using h0 h1 by simp
qed

subsection \<open>The vectors of a plane within its mask\<close>

text \<open>
  Claim C10: for any margin (in particular one in [0, 1]), every plane of an encoded
  document has at least one vector; the coordinates of its vectors are a subsequence of the
  row-major mask list of its colour, so they increase strictly in row-major order and none
  repeats; and the first vector sits at the first pixel of that colour in the scan.
\<close>

theorem plane_vectors_subsequence:
  assumes "p \<in> set (d_planes (convert_to_ccvi img m))"
  shows "p_vectors p \<noteq> []
     \<and> subseq (coordinates p) (color_mask (arr img) (p_color p))
     \<and> sorted_wrt (<) (coordinates p) \<and> distinct (coordinates p)
     \<and> hd (coordinates p) = hd (color_mask (arr img) (p_color p))"
proof -
  from plane_cases [OF assms] obtain color where mem: "color \<in> set (concat (arr img))"
    and p: "p = make_plane (arr img) m color"
    by blast
  let ?mask = "mask_indices (arr img) (rgb_of color)"
  let ?s = "sampled_indices (arr img) m (rgb_of color)"
  let ?f = "\<lambda>(y, x). (int y, int x)"
  have col: "p_color p = tolist (rgb_of color)"
    by (simp add: p make_plane_def)
  have ne: "?mask \<noteq> []" using mem by (rule mask_nonempty)
  have s_ne: "?s \<noteq> []" and s_hd: "hd ?s = hd ?mask"
    using every_kth_hd [OF ne] by (simp_all add: sampled_indices_def)
  have s_sub: "subseq ?s ?mask"
    by (simp add: sampled_indices_def subseq_every_kth)
  have co: "coordinates p = map ?f ?s"
    by (simp add: p coordinates_make_plane)
  have cm: "color_mask (arr img) (p_color p) = map ?f ?mask"
    by (simp add: col color_mask_tolist)
  have "sorted_wrt (<) ?s"
    using s_sub sorted_mask_indices by (rule subseq_sorted_wrt)
  then have sorted: "sorted_wrt (<) (coordinates p)"
    unfolding co by (rule mono_int_pair)
  have 1: "p_vectors p \<noteq> []" using s_ne by (simp add: p make_plane_def)
  have 2: "subseq (coordinates p) (color_mask (arr img) (p_color p))"
    unfolding co cm using s_sub by (rule subseq_map)
  have 3: "distinct (coordinates p)"
    using sorted by (simp add: strict_sorted_iff)
  have 4: "hd (coordinates p) = hd (color_mask (arr img) (p_color p))"
    unfolding co cm using s_ne ne s_hd by (simp add: hd_map)
  from 1 2 sorted 3 4 show ?thesis by simp
qed

text \<open>The blue plane of the 2 by 2 example at margin 1/2: step 2, the upper blue pixel only.\<close>

theorem plane_vectors_subsequence_witness:
  "d_planes (convert_to_ccvi example_2x2 (1/2)) ! 0
     \<in> set (d_planes (convert_to_ccvi example_2x2 (1/2)))
   \<and> coordinates (d_planes (convert_to_ccvi example_2x2 (1/2)) ! 0) = [(0, 1)]
   \<and> color_mask (arr example_2x2) (p_color (d_planes (convert_to_ccvi example_2x2 (1/2)) ! 0))
       = [(0, 1), (1, 1)]
   \<and> subseq (coordinates (d_planes (convert_to_ccvi example_2x2 (1/2)) ! 0))
        (color_mask (arr example_2x2)
           (p_color (d_planes (convert_to_ccvi example_2x2 (1/2)) ! 0)))"
proof -
  have h: "d_planes (convert_to_ccvi example_2x2 (1/2)) ! 0
             \<in> set (d_planes (convert_to_ccvi example_2x2 (1/2)))"
    by (simp add: example_2x2_def encode_defs)
  have c: "coordinates (d_planes (convert_to_ccvi example_2x2 (1/2)) ! 0) = [(0, 1)]"
    by (simp add: example_2x2_def encode_defs coordinates_def)
  have m: "color_mask (arr example_2x2)
             (p_color (d_planes (convert_to_ccvi example_2x2 (1/2)) ! 0)) = [(0, 1), (1, 1)]"
    by (simp add: example_2x2_def encode_defs color_mask_def)
  from plane_vectors_subsequence [OF h] h c m show ?thesis by simp
qed

section \<open>Properties of the decoder\<close>

subsection \<open>Indices, shapes and failing writes\<close>

lemma np_index_Inr: "np_index n i = Inr k \<Longrightarrow> k < n"
  by (auto simp: np_index_def split: jnum.splits if_splits)


lemma np_index_out: "k < - int n \<or> int n \<le> k \<Longrightarrow> np_index n (JInt k) = Inl IndexError"
  by (auto simp: np_index_def)

lemma has_shape_update:
  "has_shape h w canvas \<Longrightarrow> i < h \<Longrightarrow> has_shape h w (canvas[i := (canvas ! i)[j := p]])"
  unfolding has_shape_def list_all_iff
  by (auto dest!: set_update_subset_insert [THEN subsetD])

lemma has_shape_row: "has_shape h w canvas \<Longrightarrow> i < h \<Longrightarrow> length (canvas ! i) = w"
  by (simp add: has_shape_def list_all_length)

lemma write_vector_Inr:
  assumes "write_vector canvas color vec = Inr canvas'"
  shows "\<exists>x y i j c al a. jv_x vec = Some x \<and> jv_y vec = Some y
     \<and> np_index (length canvas) y = Inr i \<and> np_index (length (canvas ! i)) x = Inr j
     \<and> broadcast3 color = Inr c \<and> jv_alpha vec = Some al \<and> to_uint8 (alpha_value al) = Inr a
     \<and> canvas' = canvas[i := (canvas ! i)[j := (fst c, fst (snd c), snd (snd c), a)]]"
proof -
  from assms obtain x where x: "jv_x vec = Some x"
    by (cases "jv_x vec") (simp_all add: write_vector_def)
  from assms obtain y where y: "jv_y vec = Some y"
    by (cases "jv_y vec") (simp_all add: write_vector_def x)
  from assms obtain i where i: "np_index (length canvas) y = Inr i"
    by (cases "np_index (length canvas) y") (simp_all add: write_vector_def x y)
  from assms obtain j where j: "np_index (length (canvas ! i)) x = Inr j"
    by (cases "np_index (length (canvas ! i)) x") (simp_all add: write_vector_def x y i)
  from assms obtain c where c: "broadcast3 color = Inr c"
    by (cases "broadcast3 color") (simp_all add: write_vector_def x y i j)
  from assms obtain al where al: "jv_alpha vec = Some al"
    by (cases "jv_alpha vec") (simp_all add: write_vector_def x y i j c)
  from assms obtain a where a: "to_uint8 (alpha_value al) = Inr a"
    by (cases "to_uint8 (alpha_value al)") (simp_all add: write_vector_def x y i j c al)
  from assms have "canvas' = canvas[i := (canvas ! i)[j := (fst c, fst (snd c), snd (snd c), a)]]"
    by (simp add: write_vector_def x y i j c al a)
  with x y i j c al a show ?thesis by blast
qed

lemma write_vector_shape:
  assumes "write_vector canvas color vec = Inr canvas'" "has_shape h w canvas"
  shows "has_shape h w canvas'"
proof -
  from write_vector_Inr [OF assms(1)] obtain y i j p where
    "np_index (length canvas) y = Inr i" "canvas' = canvas[i := (canvas ! i)[j := p]]" by blast
  moreover from this have "i < length canvas" by (auto dest: np_index_Inr)
  ultimately show ?thesis using assms(2) has_shape_update [of h w canvas i j p]
    by (simp add: has_shape_def)
qed

lemma write_vectors_shape:
  "write_vectors canvas color vecs = Inr canvas' \<Longrightarrow> has_shape h w canvas \<Longrightarrow> has_shape h w canvas'"
  by (induction vecs arbitrary: canvas) (auto split: sum.splits dest: write_vector_shape)

lemma write_plane_shape:
  "write_plane canvas plane = Inr canvas' \<Longrightarrow> has_shape h w canvas \<Longrightarrow> has_shape h w canvas'"
  by (auto simp: write_plane_def split: option.splits dest: write_vectors_shape)

lemma write_planes_shape:
  "write_planes canvas planes = Inr canvas' \<Longrightarrow> has_shape h w canvas \<Longrightarrow> has_shape h w canvas'"
  by (induction planes arbitrary: canvas) (auto split: sum.splits dest: write_plane_shape)

lemma write_vectors_fail:
  assumes "vec \<in> set vecs" "has_shape h w canvas"
    and "\<And>c. has_shape h w c \<Longrightarrow> isl (write_vector c color vec)"
  shows "isl (write_vectors canvas color vecs)"
  using assms(1,2)
proof (induction vecs arbitrary: canvas)
  case Nil
  then show ?case by simp
next
  case (Cons v vecs)
  show ?case
  proof (cases "write_vector canvas color v")
    case (Inl e)
    then show ?thesis by simp
  next
    case (Inr c')
    then have sh: "has_shape h w c'" using Cons.prems(2) by (rule write_vector_shape)
    have "v \<noteq> vec" using Inr assms(3) [OF Cons.prems(2)] by auto
    with Cons.prems(1) have "vec \<in> set vecs" by simp
    then show ?thesis using Inr Cons.IH sh by simp
  qed
qed

lemma write_planes_fail:
  assumes "plane \<in> set planes" "has_shape h w canvas"
    and "\<And>c. has_shape h w c \<Longrightarrow> isl (write_plane c plane)"
  shows "isl (write_planes canvas planes)"
  using assms(1,2)
proof (induction planes arbitrary: canvas)
  case Nil
  then show ?case by simp
next
  case (Cons q planes)
  show ?case
  proof (cases "write_plane canvas q")
    case (Inl e)
    then show ?thesis by simp
  next
    case (Inr c')
    then have sh: "has_shape h w c'" using Cons.prems(2) by (rule write_plane_shape)
    have "q \<noteq> plane" using Inr assms(3) [OF Cons.prems(2)] by auto
    with Cons.prems(1) have "plane \<in> set planes" by simp
    then show ?thesis using Inr Cons.IH sh by simp
  qed
qed

lemma np_zeros_shape:
  assumes "np_zeros height width = Inr canvas"
  shows "\<exists>h w. height = JInt (int h) \<and> width = JInt (int w) \<and> has_shape h w canvas"
proof -
  from assms obtain a b where ab: "height = JInt a" "width = JInt b" "0 \<le> a" "0 \<le> b"
    and c: "canvas = replicate (nat a) (replicate (nat b) (0, 0, 0, 0))"
    by (auto simp: np_zeros_def split: jnum.splits if_splits)
  have "has_shape (nat a) (nat b) canvas"
    by (simp add: c has_shape_def list_all_iff)
  with ab show ?thesis
    by (intro exI [of _ "nat a"] exI [of _ "nat b"]) simp
qed

lemma replay_fail:
  assumes "jd_planes data = Some planes" "plane \<in> set planes"
    and "\<And>h w c. jd_height data = Some (JInt (int h)) \<Longrightarrow> jd_width data = Some (JInt (int w))
           \<Longrightarrow> has_shape h w c \<Longrightarrow> isl (write_plane c plane)"
  shows "isl (replay data)"
proof (cases "jd_width data")
  case None
  then show ?thesis by (simp add: replay_def)
next
  case (Some width)
  note wd = this
  show ?thesis
  proof (cases "jd_height data")
    case None
    then show ?thesis by (simp add: replay_def wd)
  next
    case (Some height)
    note ht = this
    show ?thesis
    proof (cases "np_zeros height width")
      case (Inl e)
      then show ?thesis by (simp add: replay_def wd ht)
    next
      case (Inr canvas)
      from np_zeros_shape [OF Inr] obtain h w where
        "height = JInt (int h)" "width = JInt (int w)" "has_shape h w canvas" by blast
      then have "isl (write_planes canvas planes)"
        using assms(2,3) wd ht by (intro write_planes_fail [of plane planes h w]) auto
      then show ?thesis by (simp add: replay_def wd ht Inr assms(1))
    qed
  qed
qed

lemma convert_fail: "isl (replay data) \<Longrightarrow> isl (convert_from_ccvi data)"
  by (auto simp: convert_from_ccvi_def split: sum.splits)

lemma write_plane_fail:
  assumes "jp_vectors plane = Some vecs" "vec \<in> set vecs" "has_shape h w canvas"
    and "\<And>c color. has_shape h w c \<Longrightarrow> isl (write_vector c color vec)"
  shows "isl (write_plane canvas plane)"
proof (cases "jp_color plane")
  case None
  then show ?thesis by (simp add: write_plane_def)
next
  case (Some color)
  have "isl (write_vectors canvas color vecs)"
    using assms(2,3,4) by (rule write_vectors_fail)
  then show ?thesis by (simp add: write_plane_def Some assms(1))
qed

lemma isl_iff: "isl r \<longleftrightarrow> (\<exists>e. r = Inl e)"
  by (cases r) auto

lemma out_of_bounds_write:
  assumes "has_shape h w canvas" "jv_x vec = Some (JInt x)" "jv_y vec = Some (JInt y)"
    and "x < - int w \<or> int w \<le> x \<or> y < - int h \<or> int h \<le> y"
  shows "write_vector canvas color vec = Inl IndexError"
proof (cases "np_index (length canvas) (JInt y)")
  case (Inl e)
  then have "e = IndexError" by (auto simp: np_index_def split: if_splits)
  with Inl show ?thesis by (simp add: write_vector_def assms(2,3))
next
  case (Inr i)
  then have "i < length canvas" by (rule np_index_Inr)
  with assms(1) have len: "length (canvas ! i) = w" "length canvas = h"
    by (simp_all add: has_shape_def list_all_length)
  from Inr have "\<not> (y < - int h \<or> int h \<le> y)"
    by (auto simp: np_index_def len split: if_splits)
  with assms(4) have "np_index w (JInt x) = Inl IndexError"
    by (auto simp: np_index_def)
  with Inr show ?thesis by (simp add: write_vector_def assms(2,3) len)
qed

lemma unreadable_vector_fails: "unreadable_vector v \<Longrightarrow> isl (write_vector canvas color v)"
  by (auto simp: unreadable_vector_def not_int_def write_vector_def np_index_def
           split: option.splits jnum.splits sum.splits)

lemma to_uint8s_length: "to_uint8s vs = Inr bs \<Longrightarrow> length bs = length vs"
  by (induction vs arbitrary: bs) (auto split: sum.splits)

lemma broadcast3_arity:
  "length color \<noteq> 1 \<Longrightarrow> length color \<noteq> 3 \<Longrightarrow> isl (broadcast3 color)"
  by (auto simp: broadcast3_def split: sum.splits list.splits dest: to_uint8s_length)

lemma bad_arity_fails:
  "length color \<noteq> 1 \<Longrightarrow> length color \<noteq> 3 \<Longrightarrow> isl (write_vector canvas color v)"
  using broadcast3_arity [of color]
  by (auto simp: write_vector_def split: option.splits sum.splits)

lemma unreadable_plane_fails:
  assumes "unreadable_plane p" "has_shape h w canvas"
  shows "isl (write_plane canvas p)"
proof (cases "jp_color p")
  case None
  then show ?thesis by (simp add: write_plane_def)
next
  case (Some color)
  note col = this
  show ?thesis
  proof (cases "jp_vectors p")
    case None
    then show ?thesis by (simp add: write_plane_def col)
  next
    case (Some vecs)
    with assms(1) col consider "list_ex unreadable_vector vecs"
      | "vecs \<noteq> []" "length color \<noteq> 1" "length color \<noteq> 3"
      by (auto simp: unreadable_plane_def)
    then have "isl (write_vectors canvas color vecs)"
    proof cases
      case 1
      then obtain v where "v \<in> set vecs" "unreadable_vector v" by (auto simp: list_ex_iff)
      then show ?thesis using assms(2)
        by (intro write_vectors_fail [of v vecs h w]) (auto intro: unreadable_vector_fails)
    next
      case 2
      then obtain v vs where "vecs = v # vs" by (cases vecs) auto
      with bad_arity_fails [OF 2(2,3), of canvas v] show ?thesis
        by (auto simp: isl_iff)
    qed
    then show ?thesis by (simp add: write_plane_def col Some)
  qed
qed

lemma unreadable_document_fails:
  assumes "unreadable_document data"
  shows "isl (replay data)"
proof (cases "not_int (jd_width data) \<or> not_int (jd_height data)")
  case True
  then show ?thesis
    by (auto simp: not_int_def replay_def np_zeros_def split: option.splits jnum.splits)
next
  case False
  show ?thesis
  proof (cases "jd_planes data")
    case None
    then show ?thesis by (auto simp: replay_def split: option.splits sum.splits)
  next
    case (Some planes)
    with assms False obtain p where "p \<in> set planes" "unreadable_plane p"
      by (auto simp: unreadable_document_def list_ex_iff)
    with Some show ?thesis
      by (intro replay_fail [of data planes p]) (auto intro: unreadable_plane_fails)
  qed
qed

lemma forget_write_vector: "write_vector canvas color (forget_vector v) = write_vector canvas color v"
  by (simp add: write_vector_def forget_vector_def cong: option.case_cong sum.case_cong)

lemma forget_write_vectors:
  "write_vectors canvas color (map forget_vector vs) = write_vectors canvas color vs"
  by (induction vs arbitrary: canvas) (simp_all add: forget_write_vector cong: sum.case_cong)

lemma forget_write_plane: "write_plane canvas (forget_plane p) = write_plane canvas p"
  by (cases "jp_vectors p") (simp_all add: write_plane_def forget_plane_def forget_write_vectors cong: option.case_cong)

lemma forget_write_planes: "write_planes canvas (map forget_plane ps) = write_planes canvas ps"
  by (induction ps arbitrary: canvas) (simp_all add: forget_write_plane cong: sum.case_cong)

lemma forget_replay: "replay (forget_document data) = replay data"
  by (cases "jd_planes data")
     (simp_all add: replay_def forget_document_def forget_write_planes
        cong: option.case_cong sum.case_cong)



subsection \<open>Replaying a document of the encoder\<close>















subsection \<open>Evaluation\<close>

lemma replicate_two: "replicate 2 x = [x, x]"
  by (simp add: numeral_2_eq_2)

lemmas decode_defs = convert_from_ccvi_def replay_def np_zeros_def write_plane_def
  write_vector_def np_index_def broadcast3_def to_uint8_def py_int_def any_alpha_below_255_def
  replicate_two

subsection \<open>The round trip at margin 0\<close>



subsection \<open>Coordinates outside the canvas\<close>

text \<open>
  Claim C5, as the code has it: a document with a vector whose integer \<open>x\<close> is at least
  the width or below minus the width, or whose \<open>y\<close> is at least the height or below minus
  the height, does not decode; the write of that vector on a canvas of the document's size
  is an IndexError, whatever the colour. Nothing is clamped. A negative coordinate down to
  minus the size is not an error: it counts from the far edge.
\<close>

theorem out_of_range_coordinates_fail:
  assumes "jd_width data = Some (JInt w)" "jd_height data = Some (JInt h)"
    and "jd_planes data = Some planes" "plane \<in> set planes"
    and "jp_vectors plane = Some vecs" "vec \<in> set vecs"
    and "jv_x vec = Some (JInt x)" "jv_y vec = Some (JInt y)"
    and "x < - w \<or> w \<le> x \<or> y < - h \<or> h \<le> y"
  shows "(\<exists>e. replay data = Inl e) \<and> (\<exists>e. convert_from_ccvi data = Inl e)
     \<and> (\<forall>canvas color. 0 \<le> h \<and> 0 \<le> w \<and> has_shape (nat h) (nat w) canvas
            \<longrightarrow> write_vector canvas color vec = Inl IndexError)"
proof -
  have step: "write_vector c color vec = Inl IndexError"
    if "has_shape h' w' c" "h = int h'" "w = int w'" for c color h' w'
    using that(1) assms(7,8) by (rule out_of_bounds_write) (use assms(9) that in auto)
  have "isl (write_plane c plane)"
    if "jd_height data = Some (JInt (int h'))" "jd_width data = Some (JInt (int w'))"
       "has_shape h' w' c" for h' w' c
  proof -
    from that assms(1,2) have "h = int h'" "w = int w'" by simp_all
    with that(3) have "isl (write_vector c' color vec)" if "has_shape h' w' c'" for c' color
      using step [OF that] by simp
    with assms(5,6) that(3) show ?thesis by (rule write_plane_fail)
  qed
  with assms(3,4) have r: "isl (replay data)" by (rule replay_fail)
  then have "isl (convert_from_ccvi data)" by (rule convert_fail)
  moreover have "write_vector canvas color vec = Inl IndexError"
    if "0 \<le> h \<and> 0 \<le> w \<and> has_shape (nat h) (nat w) canvas" for canvas color
    using that by (intro step [of "nat h" "nat w"]) auto
  ultimately show ?thesis using r by (auto simp: isl_iff)
qed

text \<open>A vector at \<open>x = 2\<close> on a canvas two pixels wide.\<close>

theorem out_of_range_coordinates_fail_witness:
  "(\<exists>e. replay (example_doc 2) = Inl e) \<and> (\<exists>e. convert_from_ccvi (example_doc 2) = Inl e)
   \<and> write_vector [[(0, 0, 0, 0), (0, 0, 0, 0)]] [1, 2, 3] (example_vector 2 0 1) = Inl IndexError
   \<and> replay (example_doc 2) = Inl IndexError"
proof -
  have sh: "has_shape (nat 1) (nat 2) [[(0, 0, 0, 0), (0, 0, 0, 0)]]"
    by (simp add: has_shape_def)
  have ev: "replay (example_doc 2) = Inl IndexError"
    by (simp add: example_doc_def example_vector_def decode_defs)
  have "(\<exists>e. replay (example_doc 2) = Inl e) \<and> (\<exists>e. convert_from_ccvi (example_doc 2) = Inl e)
     \<and> (\<forall>canvas color. 0 \<le> (1::int) \<and> 0 \<le> (2::int) \<and> has_shape (nat 1) (nat 2) canvas
            \<longrightarrow> write_vector canvas color (example_vector 2 0 1) = Inl IndexError)"
    by (rule out_of_range_coordinates_fail [of "example_doc 2" 2 1
          "[\<lparr> jp_color = Some [1, 2, 3], jp_vectors = Some [example_vector 2 0 1] \<rparr>]"
          "\<lparr> jp_color = Some [1, 2, 3], jp_vectors = Some [example_vector 2 0 1] \<rparr>"
          "[example_vector 2 0 1]" "example_vector 2 0 1" 2 0])
       (simp_all add: example_doc_def example_vector_def)
  with sh ev show ?thesis by simp
qed

text \<open>A vector at \<open>x = -1\<close> on the same canvas is written to the last column.\<close>

theorem negative_coordinate_counterexample:
  "replay (example_doc (- 1)) = Inr [[(0, 0, 0, 0), (1, 2, 3, 255)]]
   \<and> convert_from_ccvi (example_doc (- 1)) = Inr (''png'', RGBA [[(0, 0, 0, 0), (1, 2, 3, 255)]])"
  by (simp add: example_doc_def example_vector_def decode_defs)

subsection \<open>Fields the decoder needs\<close>

text \<open>
  Claim C6, as the code has it: a document in which the width, the height, the planes, the
  colour or the vectors of a plane, or the \<open>x\<close>, \<open>y\<close> or alpha of a vector is absent, in
  which a size or a coordinate is not an integer, or in which the colour of a plane with a
  vector has neither three entries nor one, does not decode. The margin and the height and
  saturation of a vector are never read: removing them changes nothing.
\<close>

theorem unreadable_fields:
  "(unreadable_document data \<longrightarrow> (\<exists>e. convert_from_ccvi data = Inl e))
   \<and> convert_from_ccvi (forget_document data) = convert_from_ccvi data"
proof -
  have "isl (convert_from_ccvi data)" if "unreadable_document data"
    using that by (intro convert_fail unreadable_document_fails)
  then show ?thesis by (simp add: isl_iff convert_from_ccvi_def forget_replay)
qed

text \<open>A vector without alpha: the lookup fails.\<close>

theorem unreadable_fields_witness:
  "unreadable_document example_doc_no_alpha
   \<and> (\<exists>e. convert_from_ccvi example_doc_no_alpha = Inl e)
   \<and> convert_from_ccvi example_doc_no_alpha = Inl (KeyError ''alpha'')
   \<and> convert_from_ccvi (forget_document example_doc_no_alpha) =
       convert_from_ccvi example_doc_no_alpha"
proof -
  have h: "unreadable_document example_doc_no_alpha"
    by (simp add: example_doc_no_alpha_def unreadable_document_def unreadable_plane_def
          unreadable_vector_def not_int_def)
  have ev: "convert_from_ccvi example_doc_no_alpha = Inl (KeyError ''alpha'')"
    by (simp add: example_doc_no_alpha_def decode_defs)
  from unreadable_fields [of example_doc_no_alpha] h ev show ?thesis by simp
qed

text \<open>
  A document without margin, height and saturation decodes, and so does one whose colour
  has a single entry.
\<close>

theorem unread_fields_counterexample:
  "convert_from_ccvi example_doc_sparse = Inr (''jpeg'', RGB [[(1, 2, 3)]])
   \<and> jd_margin_error example_doc_sparse = None
   \<and> convert_from_ccvi example_doc_gray = Inr (''jpeg'', RGB [[(7, 7, 7)]])"
  by (simp add: example_doc_sparse_def example_doc_gray_def example_vector_def decode_defs)

subsection \<open>The alpha byte\<close>




subsection \<open>The output format\<close>



end
